theory Spec2Isabelle
  imports Complex_Main "HOL-Library.AList" "HOL-Library.Sublist"
begin

section \<open>Python values and the operations the analyzer applies to them\<close>

text \<open>
  The analyzer (\<^verbatim>\<open>src/exec-summary-analyzer.py\<close>) works on what \<^verbatim>\<open>json.loads\<close> returns:
  any JSON value, as a Python object. \<^verbatim>\<open>None\<close> is JSON \<^verbatim>\<open>null\<close>, a \<^verbatim>\<open>dict\<close> is an
  association list in insertion order read with \<open>map_of\<close> and written with
  \<open>AList.update\<close> (replace in place, else append), and \<^verbatim>\<open>int\<close> and \<^verbatim>\<open>float\<close> are
  both \<open>PNum\<close> (only their order is used); the values \<^verbatim>\<open>NaN\<close> and \<^verbatim>\<open>Infinity\<close>, which
  \<^verbatim>\<open>json.loads\<close> also accepts, are outside the model. A character is a code point below
  256; code points beyond that are outside the model.
\<close>

datatype pyval =
    PNone
  | PBool bool
  | PNum real
  | PStr string
  | PList "pyval list"
  | PDict "(string \<times> pyval) list"

text \<open>
  The exceptions that can occur: the two that Python raises on a value of the wrong type,
  and whatever a collaborator (the LLM client, \<^verbatim>\<open>json.loads\<close>) raises, with its message.
\<close>

datatype error = AttributeError | TypeError | Raised string

text \<open>\<^verbatim>\<open>d.get(key, default)\<close> on a dict.\<close>

definition dict_get :: "(string \<times> pyval) list \<Rightarrow> string \<Rightarrow> pyval \<Rightarrow> pyval" where
  "dict_get d key dflt = (case map_of d key of None \<Rightarrow> dflt | Some v \<Rightarrow> v)"

text \<open>\<^verbatim>\<open>obj.get(key, default)\<close> on any object: only a dict has the method.\<close>

fun py_get :: "pyval \<Rightarrow> string \<Rightarrow> pyval \<Rightarrow> error + pyval" where
  "py_get (PDict d) key dflt = Inr (dict_get d key dflt)"
| "py_get _ key dflt = Inl AttributeError"

text \<open>Truth value testing (\<^verbatim>\<open>if value\<close>, \<^verbatim>\<open>a or b\<close>).\<close>

fun truthy :: "pyval \<Rightarrow> bool" where
  "truthy PNone = False"
| "truthy (PBool b) = b"
| "truthy (PNum r) = (r \<noteq> 0)"
| "truthy (PStr s) = (s \<noteq> [])"
| "truthy (PList xs) = (xs \<noteq> [])"
| "truthy (PDict d) = (d \<noteq> [])"

text \<open>
  \<^verbatim>\<open>str.lower()\<close> on code points below 256: the letters A to Z, and the Latin-1 capitals
  192 to 222 without the multiplication sign 215, move up by 32.
\<close>

definition lower_char :: "char \<Rightarrow> char" where
  "lower_char c =
     (let n = (of_char c :: nat)
      in if (65 \<le> n \<and> n \<le> 90) \<or> (192 \<le> n \<and> n \<le> 222 \<and> n \<noteq> 215)
         then char_of (n + 32) else c)"

definition lower :: "string \<Rightarrow> string" where
  "lower s = map lower_char s"

text \<open>\<^verbatim>\<open>value.lower()\<close> on any object: only a string has the method.\<close>

fun py_lower :: "pyval \<Rightarrow> error + string" where
  "py_lower (PStr s) = Inr (lower s)"
| "py_lower _ = Inl AttributeError"

text \<open>\<^verbatim>\<open>key in s\<close> on strings: \<open>key\<close> occurs in \<open>s\<close> as a contiguous substring.\<close>

fun contains :: "string \<Rightarrow> string \<Rightarrow> bool" where
  "contains key [] = (key = [])"
| "contains key (c # cs) = (prefix key (c # cs) \<or> contains key cs)"

text \<open>
  \<^verbatim>\<open>confidence > best_confidence\<close>. In the merge the right operand is a number: it
  starts as \<^verbatim>\<open>0\<close> and is only ever replaced by a value that compared greater than a
  number. Numbers and booleans (\<^verbatim>\<open>True\<close> is 1) compare by value; any other left operand
  against a number raises \<^verbatim>\<open>TypeError\<close>.
\<close>

fun num_of :: "pyval \<Rightarrow> real option" where
  "num_of (PNum r) = Some r"
| "num_of (PBool b) = Some (if b then 1 else 0)"
| "num_of _ = None"

definition py_gt :: "pyval \<Rightarrow> pyval \<Rightarrow> error + bool" where
  "py_gt a b =
     (case num_of a of
        None \<Rightarrow> Inl TypeError
      | Some x \<Rightarrow> (case num_of b of None \<Rightarrow> Inl TypeError | Some y \<Rightarrow> Inr (y < x)))"

text \<open>A \<^verbatim>\<open>for\<close> loop whose body may raise: the first exception ends the loop.\<close>

fun for_each :: "('a \<Rightarrow> 's \<Rightarrow> error + 's) \<Rightarrow> 'a list \<Rightarrow> 's \<Rightarrow> error + 's" where
  "for_each body [] s = Inr s"
| "for_each body (x # xs) s =
     (case body x s of Inl e \<Rightarrow> Inl e | Inr s' \<Rightarrow> for_each body xs s')"


section \<open>The extraction merge\<close>

text \<open>The list \<^verbatim>\<open>fields\<close> (lines 205 to 209).\<close>

definition fields_list :: "string list" where
  "fields_list =
     [''company_name'', ''technology_type'', ''need_addressed'', ''market_size'',
      ''market_calculation_method'', ''product_development_stage'', ''current_sales'',
      ''exit_value_range'', ''years_to_exit'', ''investment_needed'', ''missing_skills'']"

definition sentinel :: string where
  "sentinel = ''Information not provided in the document.''"

text \<open>
  The body of the inner loop of \<^verbatim>\<open>_merge_extractions\<close> (lines 215 to 221), on the pair
  \<^verbatim>\<open>(best_value, best_confidence)\<close>. The three reads come first; the condition is
  evaluated left to right and stops at the first false conjunct.
\<close>

definition consider_extraction ::
  "string \<Rightarrow> pyval \<Rightarrow> pyval \<times> pyval \<Rightarrow> error + pyval \<times> pyval" where
  "consider_extraction field extraction best =
     (case py_get extraction field PNone of
        Inl e \<Rightarrow> Inl e
      | Inr value \<Rightarrow>
     (case py_get extraction ''confidence_scores'' (PDict []) of
        Inl e \<Rightarrow> Inl e
      | Inr scores \<Rightarrow>
     (case py_get scores field (PNum (1 / 2)) of
        Inl e \<Rightarrow> Inl e
      | Inr confidence \<Rightarrow>
          if \<not> truthy value then Inr best
          else
            (case py_lower value of
               Inl e \<Rightarrow> Inl e
             | Inr lower_value \<Rightarrow>
                 if contains ''not provided'' lower_value then Inr best
                 else
                   (case py_gt confidence (snd best) of
                      Inl e \<Rightarrow> Inl e
                    | Inr is_greater \<Rightarrow>
                        if is_greater then Inr (value, confidence) else Inr best)))))"

text \<open>
  The body of the outer loop (lines 211 to 224), on the pair of dicts
  \<^verbatim>\<open>(merged, confidence_scores)\<close>.
\<close>

definition merge_field ::
  "pyval list \<Rightarrow> string \<Rightarrow> (string \<times> pyval) list \<times> (string \<times> pyval) list
     \<Rightarrow> error + (string \<times> pyval) list \<times> (string \<times> pyval) list" where
  "merge_field extractions field acc =
     (case for_each (consider_extraction field) extractions (PNone, PNum 0) of
        Inl e \<Rightarrow> Inl e
      | Inr (best_value, best_confidence) \<Rightarrow>
          Inr (AList.update field
                 (if truthy best_value then best_value else PStr sentinel) (fst acc),
               AList.update field best_confidence (snd acc)))"

text \<open>\<^verbatim>\<open>_merge_extractions\<close> (lines 194 to 227).\<close>

fun merge_extractions :: "pyval list \<Rightarrow> error + pyval" where
  "merge_extractions [] = Inr (PDict [])"
| "merge_extractions [extraction] = Inr extraction"
| "merge_extractions extractions =
     (case for_each (merge_field extractions) fields_list ([], []) of
        Inl e \<Rightarrow> Inl e
      | Inr (merged, confidence_scores) \<Rightarrow>
          Inr (PDict (AList.update ''confidence_scores'' (PDict confidence_scores) merged)))"


section \<open>The report section parser\<close>

text \<open>
  The four keys of the dicts \<^verbatim>\<open>sections\<close> and \<^verbatim>\<open>section_mapping\<close>
  (\<^verbatim>\<open>'nature_and_state'\<close>, \<^verbatim>\<open>'market_need_and_size'\<close>, \<^verbatim>\<open>'roi_elements'\<close>,
  \<^verbatim>\<open>'management_team_strength'\<close>); the dict \<^verbatim>\<open>sections\<close>, which always holds exactly
  these keys, is a function on them.
\<close>

datatype section_key =
  Nature_and_state | Market_need_and_size | Roi_elements | Management_team_strength

text \<open>\<^verbatim>\<open>section_mapping\<close> (lines 296 to 301), in the order a dict is iterated.\<close>

definition section_mapping :: "(string \<times> section_key) list" where
  "section_mapping =
     [(''nature and state'', Nature_and_state),
      (''market need'', Market_need_and_size),
      (''roi'', Roi_elements),
      (''management'', Management_team_strength)]"

text \<open>
  \<^verbatim>\<open>str.strip()\<close>: the code points below 256 for which \<^verbatim>\<open>str.isspace()\<close> holds are
  removed from both ends.
\<close>

definition is_space :: "char \<Rightarrow> bool" where
  "is_space c = ((of_char c :: nat) \<in> {9, 10, 11, 12, 13, 28, 29, 30, 31, 32, 133, 160})"

definition strip :: "string \<Rightarrow> string" where
  "strip s = rev (dropWhile is_space (rev (dropWhile is_space s)))"

text \<open>
  \<^verbatim>\<open>report_text.split('\n')\<close>: \<open>split_from cur s\<close> reads \<open>s\<close> with \<open>cur\<close> the line
  read so far. The empty text has one empty line.
\<close>

fun split_from :: "string \<Rightarrow> string \<Rightarrow> string list" where
  "split_from cur [] = [cur]"
| "split_from cur (c # cs) =
     (if c = CHR 0x0A then cur # split_from [] cs else split_from (cur @ [c]) cs)"

definition split_lines :: "string \<Rightarrow> string list" where
  "split_lines s = split_from [] s"

text \<open>
  The inner loop with \<^verbatim>\<open>break\<close> (lines 307 to 310): the section of the first key of
  \<^verbatim>\<open>section_mapping\<close> that occurs in the lower-cased line, if any.
\<close>

definition header_of :: "string \<Rightarrow> section_key option" where
  "header_of lower_line =
     map_option snd (find (\<lambda>(key, sk). contains key lower_line) section_mapping)"

text \<open>
  The body of the loop over the lines (lines 303 to 314), on the pair
  \<^verbatim>\<open>(current_section, sections)\<close>.
\<close>

definition parse_line ::
  "string \<Rightarrow> section_key option \<times> (section_key \<Rightarrow> string)
     \<Rightarrow> section_key option \<times> (section_key \<Rightarrow> string)" where
  "parse_line line st =
     (let lower_line = lower line;
          current_section =
            (case header_of lower_line of
               Some sk \<Rightarrow> Some sk
             | None \<Rightarrow> fst st)
      in case current_section of
           None \<Rightarrow> (current_section, snd st)
         | Some k \<Rightarrow>
             if strip line \<noteq> [] \<and>
                \<not> list_ex (\<lambda>(key, sk). contains key lower_line) section_mapping
             then (current_section, (snd st)(k := snd st k @ line @ ''\<newline>''))
             else (current_section, snd st))"

text \<open>The loop over the lines, from a given state.\<close>

definition parse_lines ::
  "string list \<Rightarrow> section_key option \<times> (section_key \<Rightarrow> string)
     \<Rightarrow> section_key option \<times> (section_key \<Rightarrow> string)" where
  "parse_lines lines st = fold parse_line lines st"

text \<open>\<^verbatim>\<open>_parse_report_sections\<close> (lines 283 to 320).\<close>

definition parse_report_sections :: "string \<Rightarrow> section_key \<Rightarrow> string" where
  "parse_report_sections report_text =
     (let sections = snd (parse_lines (split_lines report_text) (None, \<lambda>key. []))
      in (\<lambda>key. strip (sections key)))"

text \<open>
  The parser in the words of the specification, as a function of the lines that remain:
  the text that the lines \<open>ls\<close> add to section \<open>k\<close> when \<open>cur\<close> is the current section.
  A header line moves the pointer and adds nothing; any other non-blank line is added,
  with a newline, to the current section.
\<close>

fun spec_section_text :: "section_key option \<Rightarrow> string list \<Rightarrow> section_key \<Rightarrow> string" where
  "spec_section_text cur [] k = []"
| "spec_section_text cur (l # ls) k =
     (case header_of (lower l) of
        Some h \<Rightarrow> spec_section_text (Some h) ls k
      | None \<Rightarrow>
          (if cur = Some k \<and> strip l \<noteq> [] then l @ ''\<newline>'' else [])
            @ spec_section_text cur ls k)"


section \<open>The orchestrator\<close>

record ExtractedInformation =
  company_name :: pyval
  technology_type :: pyval
  need_addressed :: pyval
  market_size :: pyval
  market_calculation_method :: pyval
  product_development_stage :: pyval
  current_sales :: pyval
  exit_value_range :: pyval
  years_to_exit :: pyval
  investment_needed :: pyval
  missing_skills :: pyval
  extraction_timestamp :: string
  confidence_scores :: pyval


text \<open>
  The collaborators: the text splitter, the LLM client (a state \<open>'s\<close> of its own, so that
  two calls with the same messages may answer differently; it returns the content of the
  response or raises), \<^verbatim>\<open>json.loads\<close>, the clock read by \<^verbatim>\<open>datetime.now().isoformat()\<close>,
  and the built-in \<^verbatim>\<open>str\<close> that an f-string applies to a value.
\<close>

record 's collaborators =
  split_text :: "string \<Rightarrow> string list"
  invoke :: "'s \<Rightarrow> string \<Rightarrow> string \<Rightarrow> (error + string) \<times> 's"
  json_loads :: "string \<Rightarrow> error + pyval"
  now_isoformat :: string
  py_str :: "pyval \<Rightarrow> string"

text \<open>
  The state of a request: the state of the LLM client and the log of the calls made to
  it, each the system message and the human message.
\<close>

record 's world =
  llm_state :: 's
  llm_calls :: "(string \<times> string) list"

definition llm_invoke ::
  "'s collaborators \<Rightarrow> 's world \<Rightarrow> string \<Rightarrow> string \<Rightarrow> (error + string) \<times> 's world" where
  "llm_invoke env w system_message human_message =
     (case invoke env (llm_state w) system_message human_message of
        (response, s) \<Rightarrow>
          (response,
           \<lparr>llm_state = s, llm_calls = llm_calls w @ [(system_message, human_message)]\<rparr>))"

text \<open>The literal of lines 126 to 157.\<close>

definition extraction_prompt :: string where
  "extraction_prompt =
     ''\<newline>'' @
     ''        You are an expert business analyst. Extract the following information from the executive summary.\<newline>'' @
     ''        If information is not available, clearly state \"Information not provided in the document.\"\<newline>'' @
     ''        \<newline>'' @
     ''        Questions to answer:\<newline>'' @
     ''        1. What is the company name?\<newline>'' @
     ''        2. Technology type (Device, diagnostic, therapeutic, or digital health)\<newline>'' @
     ''        3. What is the need addressed by the product?\<newline>'' @
     ''        4. How large is the potential market?\<newline>'' @
     ''        5. Was that potential calculated \"top down\" or \"bottom up\"?\<newline>'' @
     ''        6. How developed is the product? (concept only, prototype, in testing, or available on the market)\<newline>'' @
     ''        7. If it is on the market, what is the current level of sales?\<newline>'' @
     ''        8. What is the range of the potential value that the company might realize upon exit?\<newline>'' @
     ''        9. How many years to that exit?\<newline>'' @
     ''        10. How much money must be invested to secure that exit?\<newline>'' @
     ''        11. What skills needed to execute the plan are missing from the management team?\<newline>'' @
     ''        \<newline>'' @
     ''        Provide your response in JSON format with the following keys:\<newline>'' @
     ''        - company_name\<newline>'' @
     ''        - technology_type\<newline>'' @
     ''        - need_addressed\<newline>'' @
     ''        - market_size\<newline>'' @
     ''        - market_calculation_method\<newline>'' @
     ''        - product_development_stage\<newline>'' @
     ''        - current_sales\<newline>'' @
     ''        - exit_value_range\<newline>'' @
     ''        - years_to_exit\<newline>'' @
     ''        - investment_needed\<newline>'' @
     ''        - missing_skills\<newline>'' @
     ''        \<newline>'' @
     ''        Also include a confidence_score (0-1) for each field indicating how confident you are in the extraction.\<newline>'' @
     ''        ''"

text \<open>
  The body of the loop over the chunks (lines 162 to 174), on the LLM state and
  \<^verbatim>\<open>all_extractions\<close>: whatever the call or \<^verbatim>\<open>json.loads\<close> raises is caught (and
  logged), and nothing is appended.
\<close>

definition process_chunk ::
  "'s collaborators \<Rightarrow> string \<Rightarrow> 's world \<times> pyval list \<Rightarrow> 's world \<times> pyval list" where
  "process_chunk env chunk st =
     (case llm_invoke env (fst st) extraction_prompt (''Executive Summary:\<newline>'' @ chunk) of
        (Inl e, w) \<Rightarrow> (w, snd st)
      | (Inr content, w) \<Rightarrow>
          (case json_loads env content of
             Inl e \<Rightarrow> (w, snd st)
           | Inr result \<Rightarrow> (w, snd st @ [result])))"

text \<open>Lines 123 and 160 to 174: split, then the loop over \<^verbatim>\<open>chunks[:3]\<close>.\<close>

definition collect_extractions ::
  "'s collaborators \<Rightarrow> 's world \<Rightarrow> string \<Rightarrow> 's world \<times> pyval list" where
  "collect_extractions env w text =
     (let chunks = split_text env text
      in fold (process_chunk env) (take 3 chunks) (w, []))"

text \<open>
  Lines 179 to 192: the twelve reads of \<^verbatim>\<open>merged_info\<close> (all of them \<^verbatim>\<open>.get\<close>, which
  only a dict has) and the dataclass's \<^verbatim>\<open>__post_init__\<close>, which fills the timestamp
  and replaces a \<^verbatim>\<open>None\<close> confidence map by an empty one.
\<close>

fun build_info :: "string \<Rightarrow> pyval \<Rightarrow> error + ExtractedInformation" where
  "build_info now (PDict d) =
     Inr \<lparr>company_name = dict_get d ''company_name'' PNone,
          technology_type = dict_get d ''technology_type'' PNone,
          need_addressed = dict_get d ''need_addressed'' PNone,
          market_size = dict_get d ''market_size'' PNone,
          market_calculation_method = dict_get d ''market_calculation_method'' PNone,
          product_development_stage = dict_get d ''product_development_stage'' PNone,
          current_sales = dict_get d ''current_sales'' PNone,
          exit_value_range = dict_get d ''exit_value_range'' PNone,
          years_to_exit = dict_get d ''years_to_exit'' PNone,
          investment_needed = dict_get d ''investment_needed'' PNone,
          missing_skills = dict_get d ''missing_skills'' PNone,
          extraction_timestamp = now,
          confidence_scores =
            (case dict_get d ''confidence_scores'' (PDict []) of
               PNone \<Rightarrow> PDict []
             | scores \<Rightarrow> scores)\<rparr>"
| "build_info now _ = Inl AttributeError"

text \<open>\<^verbatim>\<open>extract_information\<close> (lines 119 to 192).\<close>

definition extract_information ::
  "'s collaborators \<Rightarrow> 's world \<Rightarrow> string \<Rightarrow> (error + ExtractedInformation) \<times> 's world" where
  "extract_information env w text =
     (case collect_extractions env w text of
        (w', all_extractions) \<Rightarrow>
          (case merge_extractions all_extractions of
             Inl e \<Rightarrow> (Inl e, w')
           | Inr merged_info \<Rightarrow> (build_info (now_isoformat env) merged_info, w')))"






section \<open>Extraction results as the data model describes them\<close>

text \<open>
  An extraction result of the data model: a dict in which each of the eleven fields is
  a string or is missing (\<^verbatim>\<open>null\<close> reads as missing), and in which the confidence map
  is absent or is a dict whose entries for the eleven fields, where present, are
  numbers. A key \<^verbatim>\<open>confidence_scores\<close> that holds \<^verbatim>\<open>null\<close> is neither: the merge calls
  \<^verbatim>\<open>.get\<close> on it.
\<close>

fun is_text :: "pyval \<Rightarrow> bool" where
  "is_text PNone = True"
| "is_text (PStr s) = True"
| "is_text _ = False"

fun is_number :: "pyval \<Rightarrow> bool" where
  "is_number (PNum r) = True"
| "is_number _ = False"

fun is_extraction_result :: "pyval \<Rightarrow> bool" where
  "is_extraction_result (PDict d) =
     (list_all (\<lambda>field. is_text (dict_get d field PNone)) fields_list \<and>
      (case dict_get d ''confidence_scores'' (PDict []) of
         PDict scores \<Rightarrow>
           list_all (\<lambda>field. is_number (dict_get scores field (PNum (1 / 2)))) fields_list
       | _ \<Rightarrow> False))"
| "is_extraction_result _ = False"

text \<open>
  What the merge reads of an extraction result for a field: the value
  (\<^verbatim>\<open>extraction.get(field)\<close>), whether the value is a candidate (non-empty and without
  \<^verbatim>\<open>"not provided"\<close> in its lower-cased text), and the confidence
  (\<^verbatim>\<open>extraction.get('confidence_scores', {}).get(field, 0.5)\<close>).
\<close>

fun value_of :: "string \<Rightarrow> pyval \<Rightarrow> pyval" where
  "value_of field (PDict d) = dict_get d field PNone"
| "value_of field _ = PNone"

definition candidate :: "string \<Rightarrow> pyval \<Rightarrow> bool" where
  "candidate field extraction =
     (case value_of field extraction of
        PStr s \<Rightarrow> s \<noteq> [] \<and> \<not> contains ''not provided'' (lower s)
      | _ \<Rightarrow> False)"

fun scores_of :: "pyval \<Rightarrow> (string \<times> pyval) list" where
  "scores_of (PDict d) =
     (case dict_get d ''confidence_scores'' (PDict []) of
        PDict scores \<Rightarrow> scores
      | _ \<Rightarrow> [])"
| "scores_of _ = []"

definition confidence_of :: "string \<Rightarrow> pyval \<Rightarrow> real" where
  "confidence_of field extraction =
     (case dict_get (scores_of extraction) field (PNum (1 / 2)) of PNum r \<Rightarrow> r | _ \<Rightarrow> 0)"


section \<open>Collaborators for the examples\<close>







section \<open>Properties of the extraction merge\<close>

subsection \<open>The two loops on extraction results of the data model\<close>

lemma result_value_text:
  assumes "is_extraction_result e" "field \<in> set fields_list"
  shows "is_text (value_of field e)"
  using assms by (cases e) (auto simp: list_all_iff)

lemma result_scores:
  assumes "is_extraction_result e"
  obtains d sc where "e = PDict d"
    "dict_get d ''confidence_scores'' (PDict []) = PDict sc" "scores_of e = sc"
  using assms by (cases e) (auto split: pyval.splits)

lemma result_confidence_number:
  assumes "is_extraction_result e" "field \<in> set fields_list"
  shows "dict_get (scores_of e) field (PNum (1 / 2)) = PNum (confidence_of field e)"
proof -
  have "is_number (dict_get (scores_of e) field (PNum (1 / 2)))"
    using assms by (cases e) (auto simp: list_all_iff split: pyval.splits)
  then show ?thesis
    by (cases "dict_get (scores_of e) field (PNum (1 / 2))") (simp_all add: confidence_of_def)
qed

lemma consider_extraction_result:
  assumes "is_extraction_result e" "field \<in> set fields_list"
  shows "consider_extraction field e (bv, PNum bc) =
           Inr (if candidate field e \<and> bc < confidence_of field e
                then (value_of field e, PNum (confidence_of field e))
                else (bv, PNum bc))"
proof -
  obtain d sc where d: "e = PDict d"
    and sc: "dict_get d ''confidence_scores'' (PDict []) = PDict sc" "scores_of e = sc"
    using assms(1) by (rule result_scores)
  have c: "dict_get sc field (PNum (1 / 2)) = PNum (confidence_of field e)"
    using result_confidence_number [OF assms] sc(2) by simp
  have t: "is_text (dict_get d field PNone)"
    using result_value_text [OF assms] d by simp
  define conf where "conf = confidence_of field e"
  have c': "dict_get sc field (PNum (1 / 2)) = PNum conf"
    using c by (simp add: conf_def)
  have v: "value_of field e = dict_get d field PNone"
    by (simp add: d)
  have cand: "candidate field e =
      (case dict_get d field PNone of
         PStr s \<Rightarrow> s \<noteq> [] \<and> \<not> contains ''not provided'' (lower s) | _ \<Rightarrow> False)"
    by (simp add: d candidate_def)
  have run: "consider_extraction field (PDict d) (bv, PNum bc) =
           Inr (if (case dict_get d field PNone of
                      PStr s \<Rightarrow> s \<noteq> [] \<and> \<not> contains ''not provided'' (lower s) | _ \<Rightarrow> False)
                   \<and> bc < conf
                then (dict_get d field PNone, PNum conf)
                else (bv, PNum bc))"
  proof (cases "dict_get d field PNone")
    case (PStr s)
    then show ?thesis
      by (simp add: consider_extraction_def sc(1) c' py_gt_def)
  qed (use t in \<open>simp_all add: consider_extraction_def sc(1) c'\<close>)
  show ?thesis
    unfolding cand v conf_def [symmetric] using run by (simp add: d)
qed

lemma scan_results:
  assumes "list_all is_extraction_result es" "field \<in> set fields_list"
  shows "\<exists>v c. for_each (consider_extraction field) es (bv, PNum bc) = Inr (v, PNum c)
           \<and> ((v = bv \<and> c = bc \<and> (\<forall>e \<in> set es. candidate field e \<longrightarrow> confidence_of field e \<le> bc))
              \<or> (\<exists>e. find (\<lambda>e. candidate field e \<and> confidence_of field e = c) es = Some e
                    \<and> v = value_of field e \<and> bc < c
                    \<and> (\<forall>e' \<in> set es. candidate field e' \<longrightarrow> confidence_of field e' \<le> c)))"
  using assms(1)
proof (induction es arbitrary: bv bc)
  case Nil
  then show ?case by simp
next
  case (Cons x xs)
  have x: "is_extraction_result x" and xs: "list_all is_extraction_result xs"
    using Cons.prems by simp_all
  note step = consider_extraction_result [OF x assms(2)]
  show ?case
  proof (cases "candidate field x \<and> bc < confidence_of field x")
    case True
    from Cons.IH [OF xs, of "value_of field x" "confidence_of field x"]
    obtain v c where r: "for_each (consider_extraction field) xs
          (value_of field x, PNum (confidence_of field x)) = Inr (v, PNum c)"
      and d: "(v = value_of field x \<and> c = confidence_of field x
                \<and> (\<forall>e \<in> set xs. candidate field e \<longrightarrow> confidence_of field e \<le> confidence_of field x))
              \<or> (\<exists>e. find (\<lambda>e. candidate field e \<and> confidence_of field e = c) xs = Some e
                    \<and> v = value_of field e \<and> confidence_of field x < c
                    \<and> (\<forall>e' \<in> set xs. candidate field e' \<longrightarrow> confidence_of field e' \<le> c))"
      by blast
    have run: "for_each (consider_extraction field) (x # xs) (bv, PNum bc) = Inr (v, PNum c)"
      using r by (simp add: step True)
    from d show ?thesis
    proof
      assume "v = value_of field x \<and> c = confidence_of field x
                \<and> (\<forall>e \<in> set xs. candidate field e \<longrightarrow> confidence_of field e \<le> confidence_of field x)"
      then show ?thesis using True run by auto
    next
      assume "\<exists>e. find (\<lambda>e. candidate field e \<and> confidence_of field e = c) xs = Some e
                    \<and> v = value_of field e \<and> confidence_of field x < c
                    \<and> (\<forall>e' \<in> set xs. candidate field e' \<longrightarrow> confidence_of field e' \<le> c)"
      then show ?thesis using True run by auto
    qed
  next
    case False
    from Cons.IH [OF xs, of bv bc]
    obtain v c where r: "for_each (consider_extraction field) xs (bv, PNum bc) = Inr (v, PNum c)"
      and d: "(v = bv \<and> c = bc
                \<and> (\<forall>e \<in> set xs. candidate field e \<longrightarrow> confidence_of field e \<le> bc))
              \<or> (\<exists>e. find (\<lambda>e. candidate field e \<and> confidence_of field e = c) xs = Some e
                    \<and> v = value_of field e \<and> bc < c
                    \<and> (\<forall>e' \<in> set xs. candidate field e' \<longrightarrow> confidence_of field e' \<le> c))"
      by blast
    have run: "for_each (consider_extraction field) (x # xs) (bv, PNum bc) = Inr (v, PNum c)"
      using r by (simp add: step False)
    from d show ?thesis
    proof
      assume "v = bv \<and> c = bc
                \<and> (\<forall>e \<in> set xs. candidate field e \<longrightarrow> confidence_of field e \<le> bc)"
      then show ?thesis using False run by auto
    next
      assume "\<exists>e. find (\<lambda>e. candidate field e \<and> confidence_of field e = c) xs = Some e
                    \<and> v = value_of field e \<and> bc < c
                    \<and> (\<forall>e' \<in> set xs. candidate field e' \<longrightarrow> confidence_of field e' \<le> c)"
      then show ?thesis using False run by auto
    qed
  qed
qed


lemma merge_field_result:
  assumes "for_each (consider_extraction field) es (PNone, PNum 0) = Inr (v, c)"
  shows "merge_field es field (m, s) =
           Inr (AList.update field (if truthy v then v else PStr sentinel) m,
                AList.update field c s)"
  using assms by (simp add: merge_field_def)

lemma merge_field_loop:
  assumes "\<forall>f \<in> set fs. \<exists>b. for_each (consider_extraction f) es (PNone, PNum 0) = Inr b"
  shows "\<exists>m' s'. for_each (merge_field es) fs (m, s) = Inr (m', s')
           \<and> (\<forall>f \<in> set fs. \<exists>v c.
                 for_each (consider_extraction f) es (PNone, PNum 0) = Inr (v, c)
                 \<and> map_of m' f = Some (if truthy v then v else PStr sentinel)
                 \<and> map_of s' f = Some c)
           \<and> (\<forall>f. f \<notin> set fs \<longrightarrow> map_of m' f = map_of m f \<and> map_of s' f = map_of s f)"
  using assms
proof (induction fs arbitrary: m s)
  case Nil
  then show ?case by simp
next
  case (Cons g gs)
  from Cons.prems obtain v c where
    g: "for_each (consider_extraction g) es (PNone, PNum 0) = Inr (v, c)"
    by fastforce
  define m1 where "m1 = AList.update g (if truthy v then v else PStr sentinel) m"
  define s1 where "s1 = AList.update g c s"
  have step: "merge_field es g (m, s) = Inr (m1, s1)"
    unfolding m1_def s1_def using g by (rule merge_field_result)
  have rest: "\<forall>f \<in> set gs. \<exists>b. for_each (consider_extraction f) es (PNone, PNum 0) = Inr b"
    using Cons.prems by simp
  from Cons.IH [OF rest, of m1 s1] obtain m' s' where
    run: "for_each (merge_field es) gs (m1, s1) = Inr (m', s')"
    and inside: "\<forall>f \<in> set gs. \<exists>v c.
                 for_each (consider_extraction f) es (PNone, PNum 0) = Inr (v, c)
                 \<and> map_of m' f = Some (if truthy v then v else PStr sentinel)
                 \<and> map_of s' f = Some c"
    and outside: "\<forall>f. f \<notin> set gs \<longrightarrow> map_of m' f = map_of m1 f \<and> map_of s' f = map_of s1 f"
    by blast
  have whole: "for_each (merge_field es) (g # gs) (m, s) = Inr (m', s')"
    by (simp add: step run)
  have head: "\<exists>v c. for_each (consider_extraction g) es (PNone, PNum 0) = Inr (v, c)
                 \<and> map_of m' g = Some (if truthy v then v else PStr sentinel)
                 \<and> map_of s' g = Some c"
  proof (cases "g \<in> set gs")
    case True
    then show ?thesis using inside by blast
  next
    case False
    then have "map_of m' g = map_of m1 g" "map_of s' g = map_of s1 g"
      using outside by simp_all
    then show ?thesis
      using g by (simp add: m1_def s1_def update_conv')
  qed
  have others: "\<forall>f. f \<notin> set (g # gs) \<longrightarrow> map_of m' f = map_of m f \<and> map_of s' f = map_of s f"
    using outside by (simp add: m1_def s1_def update_conv')
  show ?case
    using whole head inside others by auto
qed

lemma confidence_scores_not_field: "''confidence_scores'' \<notin> set fields_list"
  by (simp add: fields_list_def)

lemma merge_results:
  assumes "list_all is_extraction_result es" "2 \<le> length es"
  shows "\<exists>merged scores. merge_extractions es = Inr (PDict merged)
           \<and> map_of merged ''confidence_scores'' = Some (PDict scores)
           \<and> (\<forall>f \<in> set fields_list. \<exists>v c.
                 for_each (consider_extraction f) es (PNone, PNum 0) = Inr (v, c)
                 \<and> map_of merged f = Some (if truthy v then v else PStr sentinel)
                 \<and> map_of scores f = Some c)"
proof -
  obtain a b rest where es: "es = a # b # rest"
    using assms(2) by (cases es; cases "tl es") auto
  have "\<forall>f \<in> set fields_list. \<exists>b. for_each (consider_extraction f) es (PNone, PNum 0) = Inr b"
    using scan_results [OF assms(1), of _ PNone 0] by blast
  from merge_field_loop [OF this, of "[]" "[]"] obtain m' s' where
    run: "for_each (merge_field es) fields_list ([], []) = Inr (m', s')"
    and inside: "\<forall>f \<in> set fields_list. \<exists>v c.
                 for_each (consider_extraction f) es (PNone, PNum 0) = Inr (v, c)
                 \<and> map_of m' f = Some (if truthy v then v else PStr sentinel)
                 \<and> map_of s' f = Some c"
    by blast
  have result: "merge_extractions es =
      Inr (PDict (AList.update ''confidence_scores'' (PDict s') m'))"
    using run unfolding es by simp
  have "\<forall>f \<in> set fields_list.
      map_of (AList.update ''confidence_scores'' (PDict s') m') f = map_of m' f"
    using confidence_scores_not_field by (auto simp: update_conv')
  then show ?thesis
    using result inside by (simp add: update_conv')
qed

lemma candidate_truthy: "candidate field e \<Longrightarrow> truthy (value_of field e)"
  by (auto simp: candidate_def split: pyval.splits)

text \<open>
  Claim C1. For two or more extraction results and each of the eleven fields: the scan
  accepts a result exactly when its value is non-empty, does not contain
  \<^verbatim>\<open>"not provided"\<close> in any letter case, and its confidence is strictly greater than the
  best confidence so far, which starts at 0. The merged field is the accepted candidate
  of highest confidence, with that confidence; when no candidate is accepted, it is the
  sentinel with confidence 0.
\<close>

theorem merge_picks_highest_confidence:
  assumes "list_all is_extraction_result es" and "2 \<le> length es"
    and "field \<in> set fields_list"
  shows "(\<forall>e \<in> set es. \<forall>bv bc.
            consider_extraction field e (bv, PNum bc) =
              Inr (if candidate field e \<and> bc < confidence_of field e
                   then (value_of field e, PNum (confidence_of field e))
                   else (bv, PNum bc)))
       \<and> (\<exists>merged scores v c.
            merge_extractions es = Inr (PDict merged)
          \<and> map_of merged ''confidence_scores'' = Some (PDict scores)
          \<and> map_of merged field = Some v
          \<and> map_of scores field = Some (PNum c)
          \<and> (if \<exists>e \<in> set es. candidate field e \<and> 0 < confidence_of field e
             then \<exists>e \<in> set es. candidate field e \<and> v = value_of field e
                    \<and> c = confidence_of field e \<and> 0 < c
                    \<and> (\<forall>e' \<in> set es. candidate field e' \<longrightarrow> confidence_of field e' \<le> c)
             else v = PStr sentinel \<and> c = 0))"
proof
  show "\<forall>e \<in> set es. \<forall>bv bc.
            consider_extraction field e (bv, PNum bc) =
              Inr (if candidate field e \<and> bc < confidence_of field e
                   then (value_of field e, PNum (confidence_of field e))
                   else (bv, PNum bc))"
    using assms(1,3) by (auto simp: list_all_iff consider_extraction_result)
next
  from merge_results [OF assms(1,2)] assms(3) obtain merged scores bv bc where
    m: "merge_extractions es = Inr (PDict merged)"
      "map_of merged ''confidence_scores'' = Some (PDict scores)"
    and scan: "for_each (consider_extraction field) es (PNone, PNum 0) = Inr (bv, bc)"
    and out: "map_of merged field = Some (if truthy bv then bv else PStr sentinel)"
      "map_of scores field = Some bc"
    by blast
  from scan_results [OF assms(1,3), of PNone 0] scan obtain c where
    bc: "bc = PNum c"
    and d: "(bv = PNone \<and> c = 0
              \<and> (\<forall>e \<in> set es. candidate field e \<longrightarrow> confidence_of field e \<le> 0))
          \<or> (\<exists>e. find (\<lambda>e. candidate field e \<and> confidence_of field e = c) es = Some e
                \<and> bv = value_of field e \<and> 0 < c
                \<and> (\<forall>e' \<in> set es. candidate field e' \<longrightarrow> confidence_of field e' \<le> c))"
    by auto
  from d have "if \<exists>e \<in> set es. candidate field e \<and> 0 < confidence_of field e
             then \<exists>e \<in> set es. candidate field e
                    \<and> (if truthy bv then bv else PStr sentinel) = value_of field e
                    \<and> c = confidence_of field e \<and> 0 < c
                    \<and> (\<forall>e' \<in> set es. candidate field e' \<longrightarrow> confidence_of field e' \<le> c)
             else (if truthy bv then bv else PStr sentinel) = PStr sentinel \<and> c = 0"
  proof
    assume "bv = PNone \<and> c = 0
              \<and> (\<forall>e \<in> set es. candidate field e \<longrightarrow> confidence_of field e \<le> 0)"
    then show ?thesis by force
  next
    assume "\<exists>e. find (\<lambda>e. candidate field e \<and> confidence_of field e = c) es = Some e
                \<and> bv = value_of field e \<and> 0 < c
                \<and> (\<forall>e' \<in> set es. candidate field e' \<longrightarrow> confidence_of field e' \<le> c)"
    then obtain e where e: "find (\<lambda>e. candidate field e \<and> confidence_of field e = c) es = Some e"
      "bv = value_of field e" "0 < c"
      "\<forall>e' \<in> set es. candidate field e' \<longrightarrow> confidence_of field e' \<le> c"
      by blast
    from e(1) have mem: "e \<in> set es" "candidate field e" "confidence_of field e = c"
      by (auto simp: find_Some_iff)
    have "truthy bv" using mem(2) e(2) by (simp add: candidate_truthy)
    then show ?thesis using mem e by auto
  qed
  then show "\<exists>merged scores v c.
            merge_extractions es = Inr (PDict merged)
          \<and> map_of merged ''confidence_scores'' = Some (PDict scores)
          \<and> map_of merged field = Some v
          \<and> map_of scores field = Some (PNum c)
          \<and> (if \<exists>e \<in> set es. candidate field e \<and> 0 < confidence_of field e
             then \<exists>e \<in> set es. candidate field e \<and> v = value_of field e
                    \<and> c = confidence_of field e \<and> 0 < c
                    \<and> (\<forall>e' \<in> set es. candidate field e' \<longrightarrow> confidence_of field e' \<le> c)
             else v = PStr sentinel \<and> c = 0)"
    using m out bc by blast
qed

text \<open>
  The theorem at the pair of results of the specification's example: confidence 0.3 in
  the first result and 0.9 in the second; the second wins.
\<close>

theorem merge_picks_highest_confidence_witness:
  "list_all is_extraction_result
     [PDict [(''company_name'', PStr ''Acme''),
             (''confidence_scores'', PDict [(''company_name'', PNum (3 / 10))])],
      PDict [(''company_name'', PStr ''Acme Corp''),
             (''confidence_scores'', PDict [(''company_name'', PNum (9 / 10))])]]
   \<and> 2 \<le> length
       [PDict [(''company_name'', PStr ''Acme''),
               (''confidence_scores'', PDict [(''company_name'', PNum (3 / 10))])],
        PDict [(''company_name'', PStr ''Acme Corp''),
               (''confidence_scores'', PDict [(''company_name'', PNum (9 / 10))])]]
   \<and> ''company_name'' \<in> set fields_list
   \<and> (\<exists>merged scores.
        merge_extractions
          [PDict [(''company_name'', PStr ''Acme''),
                  (''confidence_scores'', PDict [(''company_name'', PNum (3 / 10))])],
           PDict [(''company_name'', PStr ''Acme Corp''),
                  (''confidence_scores'', PDict [(''company_name'', PNum (9 / 10))])]]
          = Inr (PDict merged)
      \<and> map_of merged ''confidence_scores'' = Some (PDict scores)
      \<and> map_of merged ''company_name'' = Some (PStr ''Acme Corp'')
      \<and> map_of scores ''company_name'' = Some (PNum (9 / 10)))"
proof -
  define a where "a = PDict [(''company_name'', PStr ''Acme''),
             (''confidence_scores'', PDict [(''company_name'', PNum (3 / 10))])]"
  define b where "b = PDict [(''company_name'', PStr ''Acme Corp''),
             (''confidence_scores'', PDict [(''company_name'', PNum (9 / 10))])]"
  have wf: "list_all is_extraction_result [a, b]"
    by (simp add: a_def b_def fields_list_def dict_get_def)
  have len: "2 \<le> length [a, b]" by simp
  have fld: "''company_name'' \<in> set fields_list" by (simp add: fields_list_def)
  have ev: "candidate ''company_name'' a" "candidate ''company_name'' b"
    "confidence_of ''company_name'' a = 3 / 10" "confidence_of ''company_name'' b = 9 / 10"
    "value_of ''company_name'' b = PStr ''Acme Corp''"
    "value_of ''company_name'' a = PStr ''Acme''"
    by (simp_all add: a_def b_def candidate_def confidence_of_def dict_get_def lower_def lower_char_def)
  from merge_picks_highest_confidence [OF wf len fld, THEN conjunct2]
  obtain merged scores v c where
    m: "merge_extractions [a, b] = Inr (PDict merged)"
      "map_of merged ''confidence_scores'' = Some (PDict scores)"
      "map_of merged ''company_name'' = Some v"
      "map_of scores ''company_name'' = Some (PNum c)"
    and pick: "(v = PStr ''Acme'' \<and> c = 3 / 10 \<and> (9::real) / 10 \<le> c)
             \<or> (v = PStr ''Acme Corp'' \<and> c = 9 / 10)"
    by (auto simp: ev simp del: merge_extractions.simps)
  from pick have "v = PStr ''Acme Corp'' \<and> c = 9 / 10" by auto
  then have "\<exists>merged scores.
        merge_extractions [a, b] = Inr (PDict merged)
      \<and> map_of merged ''confidence_scores'' = Some (PDict scores)
      \<and> map_of merged ''company_name'' = Some (PStr ''Acme Corp'')
      \<and> map_of scores ''company_name'' = Some (PNum (9 / 10))"
    using m by blast
  then show ?thesis using wf len fld unfolding a_def b_def by blast
qed

text \<open>
  Claim C5. For two or more extraction results, a candidate whose confidence equals the
  current best does not replace it, since the comparison is strict; so the merged value
  of a field is that of the first result in the sequence that is a candidate with the
  winning confidence, and no later candidate of equal confidence takes its place.
\<close>

theorem merge_ties_first_seen:
  assumes "list_all is_extraction_result es" and "2 \<le> length es"
    and "field \<in> set fields_list"
  shows "(\<forall>e \<in> set es. \<forall>bv.
            consider_extraction field e (bv, PNum (confidence_of field e)) =
              Inr (bv, PNum (confidence_of field e)))
       \<and> (\<exists>merged scores c.
            merge_extractions es = Inr (PDict merged)
          \<and> map_of merged ''confidence_scores'' = Some (PDict scores)
          \<and> map_of scores field = Some (PNum c)
          \<and> (0 < c \<longrightarrow>
               (\<exists>i < length es.
                  candidate field (es ! i) \<and> confidence_of field (es ! i) = c
                \<and> map_of merged field = Some (value_of field (es ! i))
                \<and> (\<forall>j < i. \<not> (candidate field (es ! j) \<and> confidence_of field (es ! j) = c)))))"
proof
  show "\<forall>e \<in> set es. \<forall>bv.
            consider_extraction field e (bv, PNum (confidence_of field e)) =
              Inr (bv, PNum (confidence_of field e))"
    using assms(1,3) by (simp add: list_all_iff consider_extraction_result)
next
  from merge_results [OF assms(1,2)] assms(3) obtain merged scores bv bc where
    m: "merge_extractions es = Inr (PDict merged)"
      "map_of merged ''confidence_scores'' = Some (PDict scores)"
    and scan: "for_each (consider_extraction field) es (PNone, PNum 0) = Inr (bv, bc)"
    and out: "map_of merged field = Some (if truthy bv then bv else PStr sentinel)"
      "map_of scores field = Some bc"
    by blast
  from scan_results [OF assms(1,3), of PNone 0] scan obtain c where
    bc: "bc = PNum c"
    and d: "(bv = PNone \<and> c = 0
              \<and> (\<forall>e \<in> set es. candidate field e \<longrightarrow> confidence_of field e \<le> 0))
          \<or> (\<exists>e. find (\<lambda>e. candidate field e \<and> confidence_of field e = c) es = Some e
                \<and> bv = value_of field e \<and> 0 < c
                \<and> (\<forall>e' \<in> set es. candidate field e' \<longrightarrow> confidence_of field e' \<le> c))"
    by auto
  have "\<exists>i < length es.
          candidate field (es ! i) \<and> confidence_of field (es ! i) = c
        \<and> map_of merged field = Some (value_of field (es ! i))
        \<and> (\<forall>j < i. \<not> (candidate field (es ! j) \<and> confidence_of field (es ! j) = c))"
    if "0 < c"
  proof -
    from d that obtain e where
      e: "find (\<lambda>e. candidate field e \<and> confidence_of field e = c) es = Some e"
        "bv = value_of field e"
      by auto
    from e(1) obtain i where i: "i < length es" "candidate field (es ! i)"
      "confidence_of field (es ! i) = c" "e = es ! i"
      "\<forall>j < i. \<not> (candidate field (es ! j) \<and> confidence_of field (es ! j) = c)"
      unfolding find_Some_iff by blast
    have "truthy bv"
      using i(2,4) e(2) by (simp add: candidate_truthy)
    then have "map_of merged field = Some (value_of field (es ! i))"
      using out(1) e(2) i(4) by simp
    then show ?thesis using i by blast
  qed
  then show "\<exists>merged scores c.
            merge_extractions es = Inr (PDict merged)
          \<and> map_of merged ''confidence_scores'' = Some (PDict scores)
          \<and> map_of scores field = Some (PNum c)
          \<and> (0 < c \<longrightarrow>
               (\<exists>i < length es.
                  candidate field (es ! i) \<and> confidence_of field (es ! i) = c
                \<and> map_of merged field = Some (value_of field (es ! i))
                \<and> (\<forall>j < i. \<not> (candidate field (es ! j) \<and> confidence_of field (es ! j) = c))))"
    using m out(2) bc by blast
qed

text \<open>
  The theorem at the pair of results of the specification's example: both have
  confidence 0.5 for the field; the first-seen value is kept.
\<close>

theorem merge_ties_first_seen_witness:
  "list_all is_extraction_result
     [PDict [(''company_name'', PStr ''Acme''),
             (''confidence_scores'', PDict [(''company_name'', PNum (1 / 2))])],
      PDict [(''company_name'', PStr ''Acme Corp''),
             (''confidence_scores'', PDict [(''company_name'', PNum (1 / 2))])]]
   \<and> 2 \<le> length
       [PDict [(''company_name'', PStr ''Acme''),
               (''confidence_scores'', PDict [(''company_name'', PNum (1 / 2))])],
        PDict [(''company_name'', PStr ''Acme Corp''),
               (''confidence_scores'', PDict [(''company_name'', PNum (1 / 2))])]]
   \<and> ''company_name'' \<in> set fields_list
   \<and> (\<exists>merged scores.
        merge_extractions
          [PDict [(''company_name'', PStr ''Acme''),
                  (''confidence_scores'', PDict [(''company_name'', PNum (1 / 2))])],
           PDict [(''company_name'', PStr ''Acme Corp''),
                  (''confidence_scores'', PDict [(''company_name'', PNum (1 / 2))])]]
          = Inr (PDict merged)
      \<and> map_of merged ''confidence_scores'' = Some (PDict scores)
      \<and> map_of scores ''company_name'' = Some (PNum (1 / 2))
      \<and> map_of merged ''company_name'' = Some (PStr ''Acme''))"
proof -
  define a where "a = PDict [(''company_name'', PStr ''Acme''),
             (''confidence_scores'', PDict [(''company_name'', PNum (1 / 2))])]"
  define b where "b = PDict [(''company_name'', PStr ''Acme Corp''),
             (''confidence_scores'', PDict [(''company_name'', PNum (1 / 2))])]"
  have wf: "list_all is_extraction_result [a, b]"
    by (simp add: a_def b_def fields_list_def dict_get_def)
  have len: "2 \<le> length [a, b]" by simp
  have fld: "''company_name'' \<in> set fields_list" by (simp add: fields_list_def)
  have ev: "candidate ''company_name'' a"
    "confidence_of ''company_name'' a = 1 / 2" "confidence_of ''company_name'' b = 1 / 2"
    "value_of ''company_name'' a = PStr ''Acme''"
    by (simp_all add: a_def b_def candidate_def confidence_of_def dict_get_def
        lower_def lower_char_def)
  have known: "\<exists>m s. merge_extractions [a, b] = Inr (PDict m)
      \<and> map_of m ''confidence_scores'' = Some (PDict s)
      \<and> map_of s ''company_name'' = Some (PNum (1 / 2))"
    unfolding a_def b_def
    by (simp add: fields_list_def dict_get_def merge_field_def consider_extraction_def
        py_gt_def lower_def lower_char_def)
  from merge_ties_first_seen [OF wf len fld, THEN conjunct2]
  obtain merged scores c where
    m: "merge_extractions [a, b] = Inr (PDict merged)"
      "map_of merged ''confidence_scores'' = Some (PDict scores)"
      "map_of scores ''company_name'' = Some (PNum c)"
    and first: "0 < c \<longrightarrow>
               (\<exists>i < length [a, b].
                  candidate ''company_name'' ([a, b] ! i)
                \<and> confidence_of ''company_name'' ([a, b] ! i) = c
                \<and> map_of merged ''company_name'' = Some (value_of ''company_name'' ([a, b] ! i))
                \<and> (\<forall>j < i. \<not> (candidate ''company_name'' ([a, b] ! j)
                              \<and> confidence_of ''company_name'' ([a, b] ! j) = c)))"
    by blast
  from known m have c: "c = 1 / 2" by auto
  with first obtain i where i: "i < length [a, b]"
    "map_of merged ''company_name'' = Some (value_of ''company_name'' ([a, b] ! i))"
    "\<forall>j < i. \<not> (candidate ''company_name'' ([a, b] ! j)
                              \<and> confidence_of ''company_name'' ([a, b] ! j) = 1 / 2)"
    by auto
  have "i = 0"
  proof (rule ccontr)
    assume "i \<noteq> 0"
    then have "0 < i" by simp
    with i(3) have "\<not> (candidate ''company_name'' ([a, b] ! 0)
                         \<and> confidence_of ''company_name'' ([a, b] ! 0) = 1 / 2)"
      by blast
    then show False by (simp add: ev)
  qed
  with i(2) have "map_of merged ''company_name'' = Some (PStr ''Acme'')"
    by (simp add: ev)
  then have "\<exists>merged scores.
        merge_extractions [a, b] = Inr (PDict merged)
      \<and> map_of merged ''confidence_scores'' = Some (PDict scores)
      \<and> map_of scores ''company_name'' = Some (PNum (1 / 2))
      \<and> map_of merged ''company_name'' = Some (PStr ''Acme'')"
    using m c by blast
  then show ?thesis using wf len fld unfolding a_def b_def by blast
qed

lemma merge_never_fails:
  assumes "list_all is_extraction_result es"
  shows "\<exists>r. merge_extractions es = Inr r"
proof (cases "2 \<le> length es")
  case True
  from merge_results [OF assms True] show ?thesis by blast
next
  case False
  then have "es = [] \<or> (\<exists>e. es = [e])"
    by (cases es; cases "tl es") auto
  then show ?thesis by auto
qed

lemma absent_score_reads_half:
  assumes "map_of (scores_of e) field = None"
  shows "confidence_of field e = 1 / 2"
  using assms by (simp add: confidence_of_def dict_get_def)

lemma single_result_scores:
  assumes "is_extraction_result e"
  shows "map_sum id confidence_scores (build_info now e) = Inr (PDict (scores_of e))"
proof -
  obtain d sc where "e = PDict d"
    "dict_get d ''confidence_scores'' (PDict []) = PDict sc" "scores_of e = sc"
    using assms by (rule result_scores)
  then show ?thesis by simp
qed

lemma absent_score_reads_zero:
  assumes "map_of scores field = None"
  shows "dict_get scores field (PNum 0) = PNum 0"
  using assms by (simp add: dict_get_def)

text \<open>
  Claim C2. On extraction results of the data model (the key \<^verbatim>\<open>confidence_scores\<close> absent,
  or a dict whose entries are numbers) the merge does not fail, whatever their number.
  For two or more results, a result without a confidence map, or without an entry for a
  field in it, is read with the confidence 0.5 for that field, the second argument of
  \<^verbatim>\<open>.get(field, 0.5)\<close> on line 217: the step of the scan treats it so, the merged
  confidence of the field is at least 0.5 when such a result is a candidate, and when no
  result has a confidence for the field the first candidate wins with confidence 0.5. A
  single result is returned as it is and no confidence is read: the confidence map
  built from it is the result's own, in which a lookup with default 0 reads 0 for a
  missing entry.
\<close>

theorem missing_confidence_defaults_to_half:
  assumes "list_all is_extraction_result es"
  shows "(\<exists>r. merge_extractions es = Inr r)
       \<and> (2 \<le> length es \<longrightarrow>
           (\<forall>field \<in> set fields_list.
              (\<forall>e \<in> set es. \<forall>bv bc.
                 map_of (scores_of e) field = None \<longrightarrow>
                   consider_extraction field e (bv, PNum bc) =
                     Inr (if candidate field e \<and> bc < 1 / 2
                          then (value_of field e, PNum (1 / 2))
                          else (bv, PNum bc)))
            \<and> (\<exists>merged scores v c.
                 merge_extractions es = Inr (PDict merged)
               \<and> map_of merged ''confidence_scores'' = Some (PDict scores)
               \<and> map_of merged field = Some v
               \<and> map_of scores field = Some (PNum c)
               \<and> (\<forall>e \<in> set es.
                     map_of (scores_of e) field = None \<and> candidate field e \<longrightarrow> 1 / 2 \<le> c)
               \<and> ((\<forall>e \<in> set es. map_of (scores_of e) field = None) \<longrightarrow>
                     (case find (candidate field) es of
                        None \<Rightarrow> v = PStr sentinel \<and> c = 0
                      | Some e \<Rightarrow> v = value_of field e \<and> c = 1 / 2)))))
       \<and> (\<forall>e. es = [e] \<longrightarrow>
             merge_extractions es = Inr e
           \<and> map_sum id confidence_scores (build_info now e) = Inr (PDict (scores_of e))
           \<and> (\<forall>field. map_of (scores_of e) field = None \<longrightarrow>
                 dict_get (scores_of e) field (PNum 0) = PNum 0))"
proof -
  have total: "\<exists>r. merge_extractions es = Inr r"
    using assms by (rule merge_never_fails)
  have step: "\<forall>e \<in> set es. \<forall>bv bc.
                 map_of (scores_of e) field = None \<longrightarrow>
                   consider_extraction field e (bv, PNum bc) =
                     Inr (if candidate field e \<and> bc < 1 / 2
                          then (value_of field e, PNum (1 / 2))
                          else (bv, PNum bc))"
    if f: "field \<in> set fields_list" for field
  proof (intro ballI allI impI)
    fix e bv bc
    assume e: "e \<in> set es" and none: "map_of (scores_of e) field = None"
    have wf: "is_extraction_result e"
      using assms e by (simp add: list_all_iff)
    have half: "confidence_of field e = 1 / 2"
      using none by (rule absent_score_reads_half)
    show "consider_extraction field e (bv, PNum bc) =
                     Inr (if candidate field e \<and> bc < 1 / 2
                          then (value_of field e, PNum (1 / 2))
                          else (bv, PNum bc))"
      using consider_extraction_result [OF wf f] half by simp
  qed
  have whole: "\<exists>merged scores v c.
                 merge_extractions es = Inr (PDict merged)
               \<and> map_of merged ''confidence_scores'' = Some (PDict scores)
               \<and> map_of merged field = Some v
               \<and> map_of scores field = Some (PNum c)
               \<and> (\<forall>e \<in> set es.
                     map_of (scores_of e) field = None \<and> candidate field e \<longrightarrow> 1 / 2 \<le> c)
               \<and> ((\<forall>e \<in> set es. map_of (scores_of e) field = None) \<longrightarrow>
                     (case find (candidate field) es of
                        None \<Rightarrow> v = PStr sentinel \<and> c = 0
                      | Some e \<Rightarrow> v = value_of field e \<and> c = 1 / 2))"
    if len: "2 \<le> length es" and f: "field \<in> set fields_list" for field
  proof -
  from merge_results [OF assms len] f obtain merged scores bv bc where
    m: "merge_extractions es = Inr (PDict merged)"
      "map_of merged ''confidence_scores'' = Some (PDict scores)"
    and scan: "for_each (consider_extraction field) es (PNone, PNum 0) = Inr (bv, bc)"
    and out: "map_of merged field = Some (if truthy bv then bv else PStr sentinel)"
      "map_of scores field = Some bc"
    by blast
  from scan_results [OF assms f, of PNone 0] scan obtain c where
    bc: "bc = PNum c"
    and d: "(bv = PNone \<and> c = 0
              \<and> (\<forall>e \<in> set es. candidate field e \<longrightarrow> confidence_of field e \<le> 0))
          \<or> (\<exists>e. find (\<lambda>e. candidate field e \<and> confidence_of field e = c) es = Some e
                \<and> bv = value_of field e \<and> 0 < c
                \<and> (\<forall>e' \<in> set es. candidate field e' \<longrightarrow> confidence_of field e' \<le> c))"
    by auto
  define v where "v = (if truthy bv then bv else PStr sentinel)"
  have bound: "\<forall>e' \<in> set es. candidate field e' \<longrightarrow> confidence_of field e' \<le> c"
    using d by auto
  have least: "\<forall>e \<in> set es.
      map_of (scores_of e) field = None \<and> candidate field e \<longrightarrow> 1 / 2 \<le> c"
  proof (intro ballI impI)
    fix e
    assume e: "e \<in> set es" and h: "map_of (scores_of e) field = None \<and> candidate field e"
    then have "confidence_of field e = 1 / 2"
      by (simp add: absent_score_reads_half)
    then show "1 / 2 \<le> c"
      using bound e h by force
  qed
  have all_missing: "case find (candidate field) es of
                        None \<Rightarrow> v = PStr sentinel \<and> c = 0
                      | Some e \<Rightarrow> v = value_of field e \<and> c = 1 / 2"
    if miss: "\<forall>e \<in> set es. map_of (scores_of e) field = None"
  proof -
    have half: "\<forall>e \<in> set es. confidence_of field e = 1 / 2"
      using miss by (simp add: absent_score_reads_half)
    show ?thesis
    proof (cases "find (candidate field) es")
      case None
      then have no: "\<forall>e \<in> set es. \<not> candidate field e"
        by (simp add: find_None_iff)
      have "\<not> (\<exists>e. find (\<lambda>e. candidate field e \<and> confidence_of field e = c) es = Some e)"
        using no by (auto simp: find_Some_iff)
      with d have "bv = PNone \<and> c = 0" by blast
      then show ?thesis using None by (simp add: v_def)
    next
      case (Some e0)
      then have e0: "e0 \<in> set es" "candidate field e0"
        by (auto simp: find_Some_iff)
      then have "confidence_of field e0 = 1 / 2" using half by simp
      then have "\<not> (\<forall>e \<in> set es. candidate field e \<longrightarrow> confidence_of field e \<le> 0)"
        using e0 by force
      with d obtain e where
        e: "find (\<lambda>e. candidate field e \<and> confidence_of field e = c) es = Some e"
          "bv = value_of field e"
        by blast
      from e(1) have ec: "e \<in> set es" "candidate field e" "confidence_of field e = c"
        by (auto simp: find_Some_iff)
      then have c: "c = 1 / 2" using half by force
      have "find (\<lambda>e. candidate field e \<and> confidence_of field e = c) es
          = find (candidate field) es"
        by (rule find_cong) (use half c in auto)
      then have "e = e0" using e(1) Some by simp
      moreover have "truthy bv"
        using ec(2) e(2) by (simp add: candidate_truthy)
      ultimately show ?thesis
        using Some e(2) c by (simp add: v_def)
    qed
  qed
  show ?thesis
    using m out bc least all_missing unfolding v_def [symmetric] by blast
  qed
  have single: "merge_extractions es = Inr e
           \<and> map_sum id confidence_scores (build_info now e) = Inr (PDict (scores_of e))
           \<and> (\<forall>field. map_of (scores_of e) field = None \<longrightarrow>
                 dict_get (scores_of e) field (PNum 0) = PNum 0)"
    if es: "es = [e]" for e
  proof -
    have "is_extraction_result e"
      using assms es by simp
    then show ?thesis
      using es by (simp add: single_result_scores absent_score_reads_zero)
  qed
  show ?thesis
    using total step whole single by blast
qed

text \<open>
  The theorem at two results, one without a confidence map and one without the entry
  for the field, and at the first of them alone.
\<close>

theorem missing_confidence_defaults_to_half_witness:
  "list_all is_extraction_result
     [PDict [(''company_name'', PStr ''Acme'')],
      PDict [(''company_name'', PStr ''Acme Corp''),
             (''confidence_scores'', PDict [(''market_size'', PNum (4 / 5))])]]
   \<and> 2 \<le> length
       [PDict [(''company_name'', PStr ''Acme'')],
        PDict [(''company_name'', PStr ''Acme Corp''),
               (''confidence_scores'', PDict [(''market_size'', PNum (4 / 5))])]]
   \<and> ''company_name'' \<in> set fields_list
   \<and> map_of (scores_of (PDict [(''company_name'', PStr ''Acme'')])) ''company_name'' = None
   \<and> map_of (scores_of
         (PDict [(''company_name'', PStr ''Acme Corp''),
                 (''confidence_scores'', PDict [(''market_size'', PNum (4 / 5))])]))
         ''company_name'' = None
   \<and> (\<exists>merged scores.
        merge_extractions
          [PDict [(''company_name'', PStr ''Acme'')],
           PDict [(''company_name'', PStr ''Acme Corp''),
                  (''confidence_scores'', PDict [(''market_size'', PNum (4 / 5))])]]
          = Inr (PDict merged)
      \<and> map_of merged ''confidence_scores'' = Some (PDict scores)
      \<and> map_of merged ''company_name'' = Some (PStr ''Acme'')
      \<and> map_of scores ''company_name'' = Some (PNum (1 / 2)))
   \<and> merge_extractions [PDict [(''company_name'', PStr ''Acme'')]]
       = Inr (PDict [(''company_name'', PStr ''Acme'')])
   \<and> map_sum id confidence_scores
         (build_info ''2026-01-01T00:00:00'' (PDict [(''company_name'', PStr ''Acme'')]))
       = Inr (PDict [])
   \<and> dict_get (scores_of (PDict [(''company_name'', PStr ''Acme'')])) ''company_name'' (PNum 0)
       = PNum 0"
proof -
  define a where "a = PDict [(''company_name'', PStr ''Acme'')]"
  define b where "b = PDict [(''company_name'', PStr ''Acme Corp''),
             (''confidence_scores'', PDict [(''market_size'', PNum (4 / 5))])]"
  have wf: "list_all is_extraction_result [a, b]"
    by (simp add: a_def b_def fields_list_def dict_get_def)
  have len: "2 \<le> length [a, b]" by simp
  have fld: "''company_name'' \<in> set fields_list" by (simp add: fields_list_def)
  have none: "map_of (scores_of a) ''company_name'' = None"
    "map_of (scores_of b) ''company_name'' = None"
    by (simp_all add: a_def b_def dict_get_def)
  have ev: "candidate ''company_name'' a" "value_of ''company_name'' a = PStr ''Acme''"
    by (simp_all add: a_def candidate_def dict_get_def lower_def lower_char_def)
  have first: "find (candidate ''company_name'') [a, b] = Some a"
    by (simp add: ev)
  from missing_confidence_defaults_to_half [OF wf, THEN conjunct2, THEN conjunct1, rule_format, OF len fld, THEN conjunct2]
  obtain merged scores v c where
    m: "merge_extractions [a, b] = Inr (PDict merged)"
      "map_of merged ''confidence_scores'' = Some (PDict scores)"
      "map_of merged ''company_name'' = Some v"
      "map_of scores ''company_name'' = Some (PNum c)"
    and all_missing: "(\<forall>e \<in> set [a, b]. map_of (scores_of e) ''company_name'' = None) \<longrightarrow>
                     (case find (candidate ''company_name'') [a, b] of
                        None \<Rightarrow> v = PStr sentinel \<and> c = 0
                      | Some e \<Rightarrow> v = value_of ''company_name'' e \<and> c = 1 / 2)"
    by blast
  have "v = PStr ''Acme'' \<and> c = 1 / 2"
    using all_missing none by (simp add: first ev)
  then have two: "\<exists>merged scores.
        merge_extractions [a, b] = Inr (PDict merged)
      \<and> map_of merged ''confidence_scores'' = Some (PDict scores)
      \<and> map_of merged ''company_name'' = Some (PStr ''Acme'')
      \<and> map_of scores ''company_name'' = Some (PNum (1 / 2))"
    using m by blast
  have wf1: "list_all is_extraction_result [a]"
    using wf by simp
  have empty: "scores_of a = []"
    by (simp add: a_def dict_get_def)
  from missing_confidence_defaults_to_half [OF wf1, THEN conjunct2, THEN conjunct2, rule_format, of a "''2026-01-01T00:00:00''"]
  have one: "merge_extractions [a] = Inr a"
    "map_sum id confidence_scores (build_info ''2026-01-01T00:00:00'' a) = Inr (PDict [])"
    "dict_get (scores_of a) ''company_name'' (PNum 0) = PNum 0"
    using none(1) by (simp_all add: empty del: merge_extractions.simps build_info.simps)
  show ?thesis
    using wf len fld none two one unfolding a_def b_def by blast
qed

text \<open>
  The default is not 0.0: a result without a confidence map is read with confidence
  0.5, which exceeds the initial best 0, so its value is accepted and the merged
  confidence of the field is 0.5. With a default of 0.0 the value would not be accepted.
  And the merge can fail on a result without a usable confidence map: when the key
  \<^verbatim>\<open>confidence_scores\<close> holds \<^verbatim>\<open>null\<close>, the default \<^verbatim>\<open>{}\<close> of the first \<^verbatim>\<open>.get\<close> is not
  used and the second \<^verbatim>\<open>.get\<close> is called on \<^verbatim>\<open>None\<close>.
\<close>

theorem missing_confidence_counterexample:
  "map_of (scores_of (PDict [(''company_name'', PStr ''Acme'')])) ''company_name'' = None
   \<and> consider_extraction ''company_name'' (PDict [(''company_name'', PStr ''Acme'')])
        (PNone, PNum 0) = Inr (PStr ''Acme'', PNum (1 / 2))
   \<and> PNum (1 / 2) \<noteq> PNum 0
   \<and> merge_extractions
        [PDict [(''company_name'', PStr ''Acme''), (''confidence_scores'', PNone)], PDict []]
       = Inl AttributeError
   \<and> merge_extractions [PDict [(''company_name'', PStr ''Acme'')], PDict []] =
       Inr (PDict
         [(''company_name'', PStr ''Acme''),
          (''technology_type'', PStr sentinel),
          (''need_addressed'', PStr sentinel),
          (''market_size'', PStr sentinel),
          (''market_calculation_method'', PStr sentinel),
          (''product_development_stage'', PStr sentinel),
          (''current_sales'', PStr sentinel),
          (''exit_value_range'', PStr sentinel),
          (''years_to_exit'', PStr sentinel),
          (''investment_needed'', PStr sentinel),
          (''missing_skills'', PStr sentinel),
          (''confidence_scores'',
           PDict
            [(''company_name'', PNum (1 / 2)), (''technology_type'', PNum 0),
             (''need_addressed'', PNum 0), (''market_size'', PNum 0),
             (''market_calculation_method'', PNum 0),
             (''product_development_stage'', PNum 0),
             (''current_sales'', PNum 0), (''exit_value_range'', PNum 0),
             (''years_to_exit'', PNum 0), (''investment_needed'', PNum 0),
             (''missing_skills'', PNum 0)])])"
  by (simp add: fields_list_def dict_get_def merge_field_def consider_extraction_def
      py_gt_def lower_def lower_char_def)

text \<open>
  Claim C3. For the empty sequence the merge returns the empty dict and does not raise.
  The \<^verbatim>\<open>ExtractedInformation\<close> built from it has \<^verbatim>\<open>None\<close> in each of the eleven fields
  and an empty confidence map, in which a lookup with default 0 reads 0.
\<close>

theorem merge_empty:
  "merge_extractions [] = Inr (PDict [])
   \<and> build_info now (PDict []) =
       Inr \<lparr>company_name = PNone, technology_type = PNone, need_addressed = PNone,
            market_size = PNone, market_calculation_method = PNone,
            product_development_stage = PNone, current_sales = PNone,
            exit_value_range = PNone, years_to_exit = PNone, investment_needed = PNone,
            missing_skills = PNone, extraction_timestamp = now,
            confidence_scores = PDict []\<rparr>
   \<and> dict_get [] field (PNum 0) = PNum 0"
  by (simp add: dict_get_def)

text \<open>
  The fields for the empty sequence are \<^verbatim>\<open>None\<close>, not the sentinel: the sentinel is only
  written by the branch for two or more results.
\<close>

theorem merge_empty_counterexample:
  "merge_extractions [] = Inr (PDict [])
   \<and> company_name (projr (build_info ''2026-01-01T00:00:00'' (PDict []))) = PNone
   \<and> company_name (projr (build_info ''2026-01-01T00:00:00'' (PDict []))) \<noteq> PStr sentinel"
  by (simp add: dict_get_def)

text \<open>
  Claim C4. A sequence of one extraction result is returned as it is. In the
  \<^verbatim>\<open>ExtractedInformation\<close> built from a dict, each field has the value the dict gives it,
  and \<^verbatim>\<open>None\<close> when the dict has no such key.
\<close>

theorem merge_single:
  "merge_extractions [r] = Inr r
   \<and> build_info now (PDict d) =
       Inr \<lparr>company_name = (case map_of d ''company_name'' of None \<Rightarrow> PNone | Some v \<Rightarrow> v),
            technology_type = (case map_of d ''technology_type'' of None \<Rightarrow> PNone | Some v \<Rightarrow> v),
            need_addressed = (case map_of d ''need_addressed'' of None \<Rightarrow> PNone | Some v \<Rightarrow> v),
            market_size = (case map_of d ''market_size'' of None \<Rightarrow> PNone | Some v \<Rightarrow> v),
            market_calculation_method =
              (case map_of d ''market_calculation_method'' of None \<Rightarrow> PNone | Some v \<Rightarrow> v),
            product_development_stage =
              (case map_of d ''product_development_stage'' of None \<Rightarrow> PNone | Some v \<Rightarrow> v),
            current_sales = (case map_of d ''current_sales'' of None \<Rightarrow> PNone | Some v \<Rightarrow> v),
            exit_value_range = (case map_of d ''exit_value_range'' of None \<Rightarrow> PNone | Some v \<Rightarrow> v),
            years_to_exit = (case map_of d ''years_to_exit'' of None \<Rightarrow> PNone | Some v \<Rightarrow> v),
            investment_needed = (case map_of d ''investment_needed'' of None \<Rightarrow> PNone | Some v \<Rightarrow> v),
            missing_skills = (case map_of d ''missing_skills'' of None \<Rightarrow> PNone | Some v \<Rightarrow> v),
            extraction_timestamp = now,
            confidence_scores =
              (case map_of d ''confidence_scores'' of
                 None \<Rightarrow> PDict [] | Some PNone \<Rightarrow> PDict [] | Some v \<Rightarrow> v)\<rparr>"
  by (simp add: dict_get_def split: option.splits pyval.splits)

text \<open>A field missing from the single result is \<^verbatim>\<open>None\<close>, not the sentinel.\<close>

theorem merge_single_counterexample:
  "merge_extractions [PDict [(''company_name'', PStr ''Acme'')]] =
     Inr (PDict [(''company_name'', PStr ''Acme'')])
   \<and> company_name (projr (build_info ''2026-01-01T00:00:00''
        (PDict [(''company_name'', PStr ''Acme'')]))) = PStr ''Acme''
   \<and> technology_type (projr (build_info ''2026-01-01T00:00:00''
        (PDict [(''company_name'', PStr ''Acme'')]))) = PNone
   \<and> technology_type (projr (build_info ''2026-01-01T00:00:00''
        (PDict [(''company_name'', PStr ''Acme'')]))) \<noteq> PStr sentinel"
  by (simp add: dict_get_def)


section \<open>Properties of the report section parser\<close>

lemma header_of_priority:
  "header_of l =
     (if contains ''nature and state'' l then Some Nature_and_state
      else if contains ''market need'' l then Some Market_need_and_size
      else if contains ''roi'' l then Some Roi_elements
      else if contains ''management'' l then Some Management_team_strength
      else None)"
  by (simp add: header_of_def section_mapping_def)

lemma any_key_header:
  "list_ex (\<lambda>(key, sk). contains key l) section_mapping \<longleftrightarrow> header_of l \<noteq> None"
  by (simp add: header_of_def section_mapping_def)

lemma parse_line_cases:
  "parse_line line (cur, secs) =
     (case header_of (lower line) of
        Some h \<Rightarrow> (Some h, secs)
      | None \<Rightarrow>
          (case cur of
             None \<Rightarrow> (None, secs)
           | Some k \<Rightarrow>
               (Some k, if strip line \<noteq> [] then secs(k := secs k @ line @ ''\<newline>'') else secs)))"
  by (simp add: parse_line_def any_key_header Let_def split: option.splits)

lemma parse_lines_Nil: "parse_lines [] st = st"
  by (simp add: parse_lines_def)

lemma parse_lines_Cons: "parse_lines (l # ls) st = parse_lines ls (parse_line l st)"
  by (simp add: parse_lines_def)

lemma parse_lines_append: "parse_lines (xs @ ys) st = parse_lines ys (parse_lines xs st)"
  by (simp add: parse_lines_def)

lemma parse_lines_spec:
  "snd (parse_lines ls (cur, secs)) k = secs k @ spec_section_text cur ls k"
proof (induction ls arbitrary: cur secs)
  case Nil
  show ?case by (simp add: parse_lines_Nil)
next
  case (Cons l ls)
  show ?case
  proof (cases "header_of (lower l)")
    case (Some h)
    then show ?thesis
      by (simp add: parse_lines_Cons parse_line_cases Cons.IH)
  next
    case None
    then show ?thesis
      by (cases cur) (simp_all add: parse_lines_Cons parse_line_cases Cons.IH)
  qed
qed

lemma parse_lines_body:
  assumes "\<forall>l \<in> set body. header_of (lower l) = None"
  shows "parse_lines body (Some k, secs) =
           (Some k, secs(k := secs k @ concat (map (\<lambda>l. l @ ''\<newline>'') (filter (\<lambda>l. strip l \<noteq> []) body))))"
  using assms
proof (induction body arbitrary: secs)
  case Nil
  show ?case by (simp add: parse_lines_Nil)
next
  case (Cons l ls)
  then have l: "header_of (lower l) = None" and ls: "\<forall>l \<in> set ls. header_of (lower l) = None"
    by simp_all
  show ?case
    by (simp add: parse_lines_Cons parse_line_cases l Cons.IH [OF ls] fun_upd_def fun_eq_iff)
qed

lemma parse_lines_no_header:
  assumes "\<forall>l \<in> set ls. header_of (lower l) = None"
  shows "parse_lines ls (None, secs) = (None, secs)"
  using assms
  by (induction ls) (simp_all add: parse_lines_Nil parse_lines_Cons parse_line_cases)

lemma strip_Nil: "strip [] = []"
  by (simp add: strip_def)

text \<open>
  Claim C6. The parser reads the lines in order, from an unset current-section pointer:
  what it returns for a section is the trimmed text that the specification's accumulator
  collects for it. A line whose lower-cased text contains a trigger sets the pointer to
  the section of the first trigger in the order "nature and state", "market need",
  "roi", "management" and is appended to no section; any other line is appended, with a
  newline, to the current section when the pointer is set and the line is not blank,
  and changes nothing otherwise. On the text of the specification's example the
  sections are "Growing fast", "", "High return" and "".
\<close>

theorem parser_follows_spec:
  "parse_report_sections text k = strip (spec_section_text None (split_lines text) k)
   \<and> header_of l =
       (if contains ''nature and state'' l then Some Nature_and_state
        else if contains ''market need'' l then Some Market_need_and_size
        else if contains ''roi'' l then Some Roi_elements
        else if contains ''management'' l then Some Management_team_strength
        else None)
   \<and> parse_line line (cur, secs) =
       (case header_of (lower line) of
          Some h \<Rightarrow> (Some h, secs)
        | None \<Rightarrow>
            (case cur of
               None \<Rightarrow> (None, secs)
             | Some c \<Rightarrow>
                 (Some c,
                  if strip line \<noteq> [] then secs(c := secs c @ line @ ''\<newline>'') else secs)))
   \<and> parse_report_sections
         ''Nature and State\<newline>Growing fast\<newline>\<newline>ROI\<newline>High return\<newline>''
         Nature_and_state = ''Growing fast''
   \<and> parse_report_sections
         ''Nature and State\<newline>Growing fast\<newline>\<newline>ROI\<newline>High return\<newline>''
         Market_need_and_size = ''''
   \<and> parse_report_sections
         ''Nature and State\<newline>Growing fast\<newline>\<newline>ROI\<newline>High return\<newline>''
         Roi_elements = ''High return''
   \<and> parse_report_sections
         ''Nature and State\<newline>Growing fast\<newline>\<newline>ROI\<newline>High return\<newline>''
         Management_team_strength = ''''"
proof (intro conjI)
  show "parse_report_sections text k = strip (spec_section_text None (split_lines text) k)"
    by (simp add: parse_report_sections_def parse_lines_spec)
  show "header_of l =
       (if contains ''nature and state'' l then Some Nature_and_state
        else if contains ''market need'' l then Some Market_need_and_size
        else if contains ''roi'' l then Some Roi_elements
        else if contains ''management'' l then Some Management_team_strength
        else None)"
    by (rule header_of_priority)
  show "parse_line line (cur, secs) =
       (case header_of (lower line) of
          Some h \<Rightarrow> (Some h, secs)
        | None \<Rightarrow>
            (case cur of
               None \<Rightarrow> (None, secs)
             | Some c \<Rightarrow>
                 (Some c,
                  if strip line \<noteq> [] then secs(c := secs c @ line @ ''\<newline>'') else secs)))"
    by (rule parse_line_cases)
  show "parse_report_sections
         ''Nature and State\<newline>Growing fast\<newline>\<newline>ROI\<newline>High return\<newline>''
         Nature_and_state = ''Growing fast''"
    by code_simp
  show "parse_report_sections
         ''Nature and State\<newline>Growing fast\<newline>\<newline>ROI\<newline>High return\<newline>''
         Market_need_and_size = ''''"
    by code_simp
  show "parse_report_sections
         ''Nature and State\<newline>Growing fast\<newline>\<newline>ROI\<newline>High return\<newline>''
         Roi_elements = ''High return''"
    by code_simp
  show "parse_report_sections
         ''Nature and State\<newline>Growing fast\<newline>\<newline>ROI\<newline>High return\<newline>''
         Management_team_strength = ''''"
    by code_simp
qed

text \<open>
  Claim C7. A line that contains a trigger is a header wherever it stands: after any
  lines \<open>pre\<close>, whatever section they left open, the pointer moves to the section \<open>k\<close> of
  the trigger, the line itself is appended nowhere, and the non-blank lines that follow
  it without a trigger accumulate in \<open>k\<close>; every other section, the one that was open
  before included, keeps the text it had after \<open>pre\<close>.
\<close>

theorem trigger_in_body_reassigns:
  assumes "header_of (lower line) = Some k"
    and "\<forall>l \<in> set body. header_of (lower l) = None"
  shows "parse_lines (pre @ line # body) st =
           (Some k,
            (snd (parse_lines pre st))
              (k := snd (parse_lines pre st) k
                    @ concat (map (\<lambda>l. l @ ''\<newline>'') (filter (\<lambda>l. strip l \<noteq> []) body))))"
proof -
  obtain cur secs where pre: "parse_lines pre st = (cur, secs)"
    by (cases "parse_lines pre st")
  have "parse_line line (cur, secs) = (Some k, secs)"
    using assms(1) by (simp add: parse_line_cases)
  then show ?thesis
    by (simp add: parse_lines_append parse_lines_Cons pre parse_lines_body [OF assms(2)])
qed

text \<open>
  The theorem at the specification's example: "We need strong management going forward"
  inside the open section \<^verbatim>\<open>roi_elements\<close> moves the pointer to
  \<^verbatim>\<open>management_team_strength\<close>, which receives the line after it.
\<close>

theorem trigger_in_body_reassigns_witness:
  "header_of (lower ''We need strong management going forward'') = Some Management_team_strength
   \<and> header_of (lower ''Great team'') = None \<and> header_of (lower '''') = None
   \<and> fst (parse_lines
        ([''ROI'', ''High return''] @ ''We need strong management going forward''
           # [''Great team'', ''''])
        (None, \<lambda>key. [])) = Some Management_team_strength
   \<and> snd (parse_lines
        ([''ROI'', ''High return''] @ ''We need strong management going forward''
           # [''Great team'', ''''])
        (None, \<lambda>key. [])) Roi_elements = ''High return\<newline>''
   \<and> snd (parse_lines
        ([''ROI'', ''High return''] @ ''We need strong management going forward''
           # [''Great team'', ''''])
        (None, \<lambda>key. [])) Management_team_strength = ''Great team\<newline>''
   \<and> parse_report_sections
        ''ROI\<newline>High return\<newline>We need strong management going forward\<newline>Great team\<newline>''
        Roi_elements = ''High return''
   \<and> parse_report_sections
        ''ROI\<newline>High return\<newline>We need strong management going forward\<newline>Great team\<newline>''
        Management_team_strength = ''Great team''"
proof -
  have h1: "header_of (lower ''We need strong management going forward'')
      = Some Management_team_strength"
    by code_simp
  have h2: "\<forall>l \<in> set [''Great team'', '''']. header_of (lower l) = None"
    by code_simp
  have pre: "snd (parse_lines [''ROI'', ''High return''] (None, \<lambda>key. [])) Roi_elements
      = ''High return\<newline>''"
    "snd (parse_lines [''ROI'', ''High return''] (None, \<lambda>key. [])) Management_team_strength = []"
    by code_simp+
  have body: "concat (map (\<lambda>l. l @ ''\<newline>'') (filter (\<lambda>l. strip l \<noteq> []) [''Great team'', '''']))
      = ''Great team\<newline>''"
    by code_simp
  have whole: "parse_report_sections
        ''ROI\<newline>High return\<newline>We need strong management going forward\<newline>Great team\<newline>''
        Roi_elements = ''High return''"
    "parse_report_sections
        ''ROI\<newline>High return\<newline>We need strong management going forward\<newline>Great team\<newline>''
        Management_team_strength = ''Great team''"
    by code_simp+
  note run = trigger_in_body_reassigns [OF h1 h2, of "[''ROI'', ''High return'']" "(None, \<lambda>key. [])"]
  have "fst (parse_lines
        ([''ROI'', ''High return''] @ ''We need strong management going forward''
           # [''Great team'', ''''])
        (None, \<lambda>key. [])) = Some Management_team_strength"
    unfolding run by simp
  moreover have "snd (parse_lines
        ([''ROI'', ''High return''] @ ''We need strong management going forward''
           # [''Great team'', ''''])
        (None, \<lambda>key. [])) Roi_elements = ''High return\<newline>''"
    unfolding run body by (simp add: pre)
  moreover have "snd (parse_lines
        ([''ROI'', ''High return''] @ ''We need strong management going forward''
           # [''Great team'', ''''])
        (None, \<lambda>key. [])) Management_team_strength = ''Great team\<newline>''"
    unfolding run body by (simp add: pre)
  moreover have "header_of (lower ''Great team'') = None" "header_of (lower '''') = None"
    using h2 by simp_all
  ultimately show ?thesis
    using h1 whole by (intro conjI)
qed

text \<open>
  Claim C8. When no line of the text contains a trigger, each of the four sections is
  the empty string; the parser is total, so nothing is raised.
\<close>

theorem no_trigger_all_empty:
  assumes "\<forall>l \<in> set (split_lines text). header_of (lower l) = None"
  shows "parse_report_sections text k = []"
  using parse_lines_no_header [OF assms]
  by (simp add: parse_report_sections_def strip_Nil)

text \<open>The theorem at the empty text and at a text of two lines without a trigger.\<close>

theorem no_trigger_all_empty_witness:
  "list_all (\<lambda>l. header_of (lower l) = None) (split_lines '''')
   \<and> parse_report_sections '''' Nature_and_state = []
   \<and> parse_report_sections '''' Market_need_and_size = []
   \<and> parse_report_sections '''' Roi_elements = []
   \<and> parse_report_sections '''' Management_team_strength = []
   \<and> list_all (\<lambda>l. header_of (lower l) = None) (split_lines ''Summary\<newline>Strong growth'')
   \<and> parse_report_sections ''Summary\<newline>Strong growth'' Roi_elements = []"
proof -
  have h1: "\<forall>l \<in> set (split_lines ''''). header_of (lower l) = None"
    by code_simp
  have h2: "\<forall>l \<in> set (split_lines ''Summary\<newline>Strong growth''). header_of (lower l) = None"
    by code_simp
  show ?thesis
    using h1 h2 no_trigger_all_empty [OF h1] no_trigger_all_empty [OF h2]
    by (simp add: list_all_iff)
qed


section \<open>Properties of the orchestrator\<close>

lemma process_chunk_calls:
  "llm_calls (fst (process_chunk env chunk st)) =
     llm_calls (fst st) @ [(extraction_prompt, ''Executive Summary:\<newline>'' @ chunk)]"
  by (simp add: process_chunk_def llm_invoke_def split: prod.splits sum.splits)

lemma fold_process_chunk_calls:
  "llm_calls (fst (fold (process_chunk env) chunks st)) =
     llm_calls (fst st) @
       map (\<lambda>chunk. (extraction_prompt, ''Executive Summary:\<newline>'' @ chunk)) chunks"
  by (induction chunks arbitrary: st) (simp_all add: process_chunk_calls)

lemma extract_information_world:
  "snd (extract_information env w text) = fst (collect_extractions env w text)"
  by (simp add: extract_information_def split: prod.splits sum.splits)

text \<open>
  Claim C10. The extraction submits the first three chunks at most, one call each, in
  order: the calls that \<^verbatim>\<open>extract_information\<close> adds to the log are those of
  \<^verbatim>\<open>chunks[:3]\<close>, so there are never more than three of them, whatever the splitter returns.
\<close>

theorem extraction_calls_at_most_three:
  "llm_calls (snd (extract_information env w text)) =
     llm_calls w @
       map (\<lambda>chunk. (extraction_prompt, ''Executive Summary:\<newline>'' @ chunk))
         (take 3 (split_text env text))
   \<and> length (llm_calls (snd (extract_information env w text))) \<le> length (llm_calls w) + 3"
  by (simp add: extract_information_world collect_extractions_def fold_process_chunk_calls)





end
